theory Spec2Isabelle
  imports Main "HOL-Library.Word"
begin

section \<open>JavaScript values as the handlers see them\<close>

text \<open>
  A request body after \<^verbatim>\<open>bodyParser.json\<close> is a JavaScript value built from JSON.
  \<open>JObj\<close> holds the own enumerable properties of an object in the order in which
  \<^verbatim>\<open>Object.entries\<close> and \<^verbatim>\<open>Object.keys\<close> enumerate them; \<open>JArr\<close> holds the
  elements of an array in index order. The code never looks at the value of a number, so
  an integer stands for it. Strings are byte strings; the characters the code tests for
  are all ASCII.
\<close>

datatype json =
    JUndefined
  | JNull
  | JBool bool
  | JNum int
  | JStr string
  | JArr "json list"
  | JObj "(string \<times> json) list"

fun typeof :: "json \<Rightarrow> string" where
  "typeof JUndefined = ''undefined''"
| "typeof JNull = ''object''"
| "typeof (JBool b) = ''boolean''"
| "typeof (JNum n) = ''number''"
| "typeof (JStr s) = ''string''"
| "typeof (JArr xs) = ''object''"
| "typeof (JObj es) = ''object''"

fun truthy :: "json \<Rightarrow> bool" where
  "truthy JUndefined = False"
| "truthy JNull = False"
| "truthy (JBool b) = b"
| "truthy (JNum n) = (n \<noteq> 0)"
| "truthy (JStr s) = (s \<noteq> [])"
| "truthy (JArr xs) = True"
| "truthy (JObj es) = True"

text \<open>Decimal rendering of an array index, as in the template \<^verbatim>\<open>`[${i}]`\<close>.\<close>

fun show_nat :: "nat \<Rightarrow> string" where
  "show_nat n =
     (if n < 10 then [char_of (48 + n)]
      else show_nat (n div 10) @ [char_of (48 + n mod 10)])"

declare show_nat.simps [simp del]

text \<open>
  \<^verbatim>\<open>body[k]\<close> restricted to own properties: a field of an object, or the element of an
  array whose index written in decimal is \<open>k\<close>. Inherited properties are functions,
  the prototype objects (which have no enumerable property) or, for \<^verbatim>\<open>length\<close>, a number;
  none of them is a string or leads the search below to a result, so \<open>None\<close> stands for
  them as for an absent property.
\<close>

fun get_prop :: "json \<Rightarrow> string \<Rightarrow> json option" where
  "get_prop (JObj es) k = map_of es k"
| "get_prop (JArr xs) k =
     (case find (\<lambda>i. show_nat i = k) [0 ..< length xs] of
        Some i \<Rightarrow> Some (xs ! i)
      | None \<Rightarrow> None)"
| "get_prop _ k = None"

text \<open>\<^verbatim>\<open>Object.keys\<close>: field names of an object, indices of an array or of a string.\<close>

fun object_keys :: "json \<Rightarrow> string list" where
  "object_keys (JObj es) = map fst es"
| "object_keys (JArr xs) = map show_nat [0 ..< length xs]"
| "object_keys (JStr s) = map show_nat [0 ..< length s]"
| "object_keys _ = []"

section \<open>The base64 heuristic\<close>

definition is_b64_char :: "char \<Rightarrow> bool" where
  "is_b64_char c =
     (let n = (of_char c :: nat) in
        (65 \<le> n \<and> n \<le> 90) \<or> (97 \<le> n \<and> n \<le> 122) \<or> (48 \<le> n \<and> n \<le> 57)
        \<or> c = CHR ''+'' \<or> c = CHR ''/'' \<or> c = CHR ''_'' \<or> c = CHR ''-'')"

text \<open>
  The regular expression \<^verbatim>\<open>/^[A-Za-z0-9+/_-]+=*$/\<close>: a non-empty run of characters of
  the class, then only \<^verbatim>\<open>=\<close> up to the end of the string.
\<close>

definition b64_regex :: "string \<Rightarrow> bool" where
  "b64_regex s =
     (takeWhile is_b64_char s \<noteq> [] \<and>
      list_all (\<lambda>c. c = CHR ''='') (dropWhile is_b64_char s))"

fun looksLikeB64 :: "json \<Rightarrow> bool" where
  "looksLikeB64 (JStr s) = (length s \<ge> 8 \<and> b64_regex s)"
| "looksLikeB64 _ = False"

section \<open>The envelope locator\<close>

record located =
  key :: string
  b64 :: string
  path :: string

text \<open>A \<^verbatim>\<open>for\<close> loop that returns from the function at the first hit.\<close>

fun first_some :: "('a \<Rightarrow> 'b option) \<Rightarrow> 'a list \<Rightarrow> 'b option" where
  "first_some f [] = None"
| "first_some f (x # xs) = (case f x of Some r \<Rightarrow> Some r | None \<Rightarrow> first_some f xs)"

lemma first_some_cong [fundef_cong]:
  "xs = ys \<Longrightarrow> (\<And>x. x \<in> set ys \<Longrightarrow> f x = g x) \<Longrightarrow> first_some f xs = first_some g ys"
  by (induction ys arbitrary: xs) (auto split: option.splits)

text \<open>\<^verbatim>\<open>inner.path = `${k}.${inner.path}`\<close> and \<^verbatim>\<open>found.path = `[${i}].${found.path}`\<close>.\<close>

definition under_key :: "string \<Rightarrow> located \<Rightarrow> located" where
  "under_key k inner = inner\<lparr>path := k @ ''.'' @ path inner\<rparr>"

definition under_index :: "nat \<Rightarrow> located \<Rightarrow> located" where
  "under_index i found = found\<lparr>path := ''['' @ show_nat i @ ''].'' @ path found\<rparr>"

lemma get_prop_size: "get_prop body k = Some v \<Longrightarrow> size v < size body"
proof (cases body)
  case (JArr xs)
  assume "get_prop body k = Some v"
  with JArr obtain i where "i < length xs" "v = xs ! i"
    by (auto split: option.splits dest: find_Some_iff[THEN iffD1])
  then have "v \<in> set xs" by simp
  then have "size v \<le> size_list size xs" by (induction xs) auto
  with JArr show ?thesis by simp
next
  case (JObj es)
  assume "get_prop body k = Some v"
  with JObj have "(k, v) \<in> set es" by (auto dest: map_of_SomeD)
  then have "size v \<le> size_list (size_prod (\<lambda>_. 0) size) es" by (induction es) auto
  with JObj show ?thesis by simp
qed auto

lemma elem_size: "x \<in> set xs \<Longrightarrow> size x < size (JArr xs)"
proof -
  assume "x \<in> set xs"
  then have "size x \<le> size_list size xs" by (induction xs) auto
  then show ?thesis by simp
qed

lemma entry_size: "(k, v) \<in> set es \<Longrightarrow> size v < size (JObj es)"
proof -
  assume "(k, v) \<in> set es"
  then have "size v \<le> size_list (size_prod (\<lambda>_. 0) size) es" by (induction es) auto
  then show ?thesis by simp
qed

function pickBase64 :: "json \<Rightarrow> string list \<Rightarrow> bool \<Rightarrow> located option" where
  "pickBase64 body preferredKeys enableRecursive =
     (if \<not> truthy body \<or> typeof body \<noteq> ''object'' then None
      else
        case first_some
               (\<lambda>k. case get_prop body k of
                      None \<Rightarrow> None
                    | Some v \<Rightarrow>
                        if looksLikeB64 v then
                          (case v of JStr s \<Rightarrow> Some \<lparr>key = k, b64 = s, path = k\<rparr> | _ \<Rightarrow> None)
                        else if typeof v = ''object'' then
                          map_option (under_key k) (pickBase64 v preferredKeys enableRecursive)
                        else None)
               preferredKeys of
          Some r \<Rightarrow> Some r
        | None \<Rightarrow>
            if \<not> enableRecursive then None
            else
              (case body of
                 JArr xs \<Rightarrow>
                   first_some
                     (\<lambda>(i, x). map_option (under_index i)
                                 (pickBase64 x preferredKeys enableRecursive))
                     (enumerate 0 xs)
               | JObj es \<Rightarrow>
                   first_some
                     (\<lambda>(k, v).
                        if looksLikeB64 v then
                          (case v of JStr s \<Rightarrow> Some \<lparr>key = k, b64 = s, path = k\<rparr> | _ \<Rightarrow> None)
                        else if truthy v \<and> typeof v = ''object'' then
                          map_option (under_key k) (pickBase64 v preferredKeys enableRecursive)
                        else None)
                     es
               | _ \<Rightarrow> None))"
  by pat_completeness auto
termination
proof (relation "measure (\<lambda>(body, ks, r). size body)", goal_cases)
  case 1
  show ?case by simp
next
  case (2 body ks r k v)
  then show ?case by (simp add: get_prop_size)
next
  case (3 body ks r xs p i x)
  then have "x \<in> set xs" by (auto simp: in_set_enumerate_eq)
  with 3 show ?case by (simp add: elem_size del: json.size)
next
  case (4 body ks r es p k v)
  then have "(k, v) \<in> set es" by auto
  then have "size v < size (JObj es)" by (rule entry_size)
  with 4 show ?case by (simp del: json.size)
qed

declare pickBase64.simps [simp del]

text \<open>
  One round of the first loop of \<^verbatim>\<open>pickBase64\<close>: what the preferred name \<open>k\<close>
  yields in \<open>body\<close>.
\<close>

definition preferred_hit :: "json \<Rightarrow> string list \<Rightarrow> bool \<Rightarrow> string \<Rightarrow> located option" where
  "preferred_hit body preferredKeys enableRecursive k =
     (case get_prop body k of
        None \<Rightarrow> None
      | Some v \<Rightarrow>
          if looksLikeB64 v then
            (case v of JStr s \<Rightarrow> Some \<lparr>key = k, b64 = s, path = k\<rparr> | _ \<Rightarrow> None)
          else if typeof v = ''object'' then
            map_option (under_key k) (pickBase64 v preferredKeys enableRecursive)
          else None)"

section \<open>Base64 as the runtime encodes and decodes it\<close>

type_synonym byte = "8 word"

text \<open>The standard alphabet, by position.\<close>

definition b64_digit :: "nat \<Rightarrow> char" where
  "b64_digit i =
     (if i < 26 then char_of (65 + i)
      else if i < 52 then char_of (71 + i)
      else if i < 62 then char_of (i - 4)
      else if i = 62 then CHR ''+''
      else CHR ''/'')"

text \<open>
  \<^verbatim>\<open>Buffer.from(bytes).toString("base64")\<close>: three bytes give four characters of the
  standard alphabet, a last group of one or two bytes is padded with \<^verbatim>\<open>=\<close>.
\<close>

fun base64 :: "byte list \<Rightarrow> string" where
  "base64 (a # b # c # rest) =
     (let n = unat a * 65536 + unat b * 256 + unat c
      in [b64_digit (n div 262144), b64_digit (n div 4096 mod 64),
          b64_digit (n div 64 mod 64), b64_digit (n mod 64)] @ base64 rest)"
| "base64 [a, b] =
     (let n = unat a * 1024 + unat b * 4
      in [b64_digit (n div 4096), b64_digit (n div 64 mod 64), b64_digit (n mod 64), CHR ''=''])"
| "base64 [a] =
     (let n = unat a * 16
      in [b64_digit (n div 64), b64_digit (n mod 64), CHR ''='', CHR ''=''])"
| "base64 [] = []"

text \<open>
  The decoder's table: both the standard and the URL-safe alphabet are accepted,
  every other character has no value.
\<close>

definition unbase64 :: "char \<Rightarrow> nat option" where
  "unbase64 c =
     (let n = (of_char c :: nat) in
        if 65 \<le> n \<and> n \<le> 90 then Some (n - 65)
        else if 97 \<le> n \<and> n \<le> 122 then Some (n - 71)
        else if 48 \<le> n \<and> n \<le> 57 then Some (n + 4)
        else if c = CHR ''+'' \<or> c = CHR ''-'' then Some 62
        else if c = CHR ''/'' \<or> c = CHR ''_'' then Some 63
        else None)"

fun sextets_to_bytes :: "nat list \<Rightarrow> byte list" where
  "sextets_to_bytes (w # x # y # z # rest) =
     (let n = w * 262144 + x * 4096 + y * 64 + z
      in [of_nat (n div 65536), of_nat (n div 256 mod 256), of_nat (n mod 256)]
         @ sextets_to_bytes rest)"
| "sextets_to_bytes [w, x, y] =
     (let n = w * 4096 + x * 64 + y
      in [of_nat (n div 1024), of_nat (n div 4 mod 256)])"
| "sextets_to_bytes [w, x] = [of_nat ((w * 64 + x) div 16)]"
| "sextets_to_bytes [w] = []"
| "sextets_to_bytes [] = []"

text \<open>
  \<^verbatim>\<open>Buffer.from(s, "base64")\<close> for a string \<open>s\<close>. The runtime's decoder is lenient
  and does not throw: it stops at the first \<^verbatim>\<open>=\<close>, skips every character that has no
  value in the table, and turns the values read into bytes, dropping the bits of an
  incomplete last byte.
\<close>

definition buffer_from_base64 :: "string \<Rightarrow> byte list" where
  "buffer_from_base64 s =
     sextets_to_bytes (List.map_filter unbase64 (takeWhile (\<lambda>c. c \<noteq> CHR ''='') s))"

text \<open>\<^verbatim>\<open>String.prototype.trim\<close> on the ASCII white space and line terminators.\<close>

definition is_space :: "char \<Rightarrow> bool" where
  "is_space c = ((of_char c :: nat) \<in> {9, 10, 11, 12, 13, 32})"

definition trim :: "string \<Rightarrow> string" where
  "trim s = rev (dropWhile is_space (rev (dropWhile is_space s)))"

definition to_standard :: "char \<Rightarrow> char" where
  "to_standard c = (if c = CHR ''-'' then CHR ''+'' else if c = CHR ''_'' then CHR ''/'' else c)"

text \<open>\<^verbatim>\<open>while (b64.length % 4) b64 += "="\<close>\<close>

function pad4 :: "string \<Rightarrow> string" where
  "pad4 s = (if length s mod 4 \<noteq> 0 then pad4 (s @ ''='') else s)"
  by pat_completeness auto
termination
proof (relation "measure (\<lambda>s. if length s mod 4 = 0 then 0 else 4 - length s mod 4)", goal_cases)
  case 1
  show ?case by (rule wf_measure)
next
  case (2 s)
  obtain m where m: "length s mod 4 = m" "m < 4" by simp
  from 2 m(2) show ?case
    unfolding in_measure length_append list.size by (simp add: mod_Suc m(1)) arith
qed

declare pad4.simps [simp del]

text \<open>
  \<^verbatim>\<open>b64urlToBuf\<close>. The \<^verbatim>\<open>catch\<close> branch needs \<^verbatim>\<open>Buffer.from\<close> to throw, which it
  does not on a string, so a string always gives a buffer (possibly an empty one, which
  is still an object and so not falsy).
\<close>

fun b64urlToBuf :: "json \<Rightarrow> byte list option" where
  "b64urlToBuf (JStr s) = Some (buffer_from_base64 (pad4 (map to_standard (trim s))))"
| "b64urlToBuf _ = None"

section \<open>The key-management provider\<close>

text \<open>
  A thrown \<^verbatim>\<open>Error\<close> with its name and message. \<^verbatim>\<open>String(e?.message || e)\<close> is the
  message when there is one, and \<^verbatim>\<open>Error.prototype.toString\<close> of the error otherwise.
\<close>

datatype js_error = JsError (err_name: string) (err_message: string)

definition error_to_string :: "js_error \<Rightarrow> string" where
  "error_to_string e =
     (if err_name e = [] then err_message e
      else if err_message e = [] then err_name e
      else err_name e @ '': '' @ err_message e)"

definition error_detail :: "js_error \<Rightarrow> string" where
  "error_detail e = (if err_message e \<noteq> [] then err_message e else error_to_string e)"

text \<open>
  The client of the external provider. A call takes the provider's state, the key
  resource and the bytes; it throws or returns bytes, and leaves the provider in a new
  state. The handlers await exactly the calls written in them.
\<close>

record 'p kms_client =
  encrypt :: "'p \<Rightarrow> string \<Rightarrow> byte list \<Rightarrow> (js_error + byte list) \<times> 'p"
  decrypt :: "'p \<Rightarrow> string \<Rightarrow> byte list \<Rightarrow> (js_error + byte list) \<times> 'p"

section \<open>Requests and responses\<close>

text \<open>
  What the JSON body parser finds in a request: no JSON payload (an empty body, or a
  content type other than JSON), a payload above the 2mb limit, a payload that is not
  JSON text, or JSON text with its value.
\<close>

datatype raw_body = NoJson | Oversized | Malformed | Json json

record request =
  req_method :: string
  url_path :: string
  req_headers :: "string \<rightharpoonup> string"
  raw :: raw_body

text \<open>
  The body of a response: nothing (\<^verbatim>\<open>res.end()\<close>), a JSON value (\<^verbatim>\<open>res.json\<close>), or
  the page the framework writes itself when no route matches or a middleware fails.
\<close>

datatype payload = Empty | JsonBody json | FrameworkPage

record response =
  status :: nat
  headers :: "(string \<times> string) list"
  payload :: payload

definition new_response :: response where
  "new_response = \<lparr>status = 200, headers = [], payload = Empty\<rparr>"

definition setHeader :: "string \<Rightarrow> string \<Rightarrow> response \<Rightarrow> response" where
  "setHeader name v res = res\<lparr>headers := filter (\<lambda>h. fst h \<noteq> name) (headers res) @ [(name, v)]\<rparr>"

definition send_json :: "json \<Rightarrow> response \<Rightarrow> response" where
  "send_json v res = res\<lparr>payload := JsonBody v\<rparr>"

definition set_status :: "nat \<Rightarrow> response \<Rightarrow> response" where
  "set_status n res = res\<lparr>status := n\<rparr>"

section \<open>The CORS middleware\<close>

text \<open>\<^verbatim>\<open>h || d\<close> for a header value: the default when the header is absent or empty.\<close>

definition header_or :: "string option \<Rightarrow> string \<Rightarrow> string" where
  "header_or h d = (case h of None \<Rightarrow> d | Some v \<Rightarrow> if v = [] then d else v)"

definition default_origin :: string where
  "default_origin = ''https://client-side-encryption.google.com''"

definition default_allow_headers :: string where
  "default_allow_headers =
     ''Content-Type, Authorization, X-Requested-With, X-Goog-AuthAssertion, X-Goog-Api-Client, X-Client-Data''"

definition cors_headers :: "request \<Rightarrow> response \<Rightarrow> response" where
  "cors_headers req res =
     (let origin = header_or (req_headers req ''origin'') default_origin;
          reqACRH = req_headers req ''access-control-request-headers''
      in setHeader ''Access-Control-Max-Age'' ''86400''
          (setHeader ''Access-Control-Allow-Headers'' (header_or reqACRH default_allow_headers)
            (setHeader ''Access-Control-Allow-Methods'' ''GET,POST,OPTIONS,HEAD''
              (setHeader ''Vary'' ''Origin''
                (setHeader ''Access-Control-Allow-Credentials'' ''true''
                  (setHeader ''Access-Control-Allow-Origin'' origin res))))))"

definition is_preflight :: "request \<Rightarrow> bool" where
  "is_preflight req = (req_method req = ''OPTIONS'' \<or> req_method req = ''HEAD'')"

section \<open>The JSON body parser and the routes\<close>

text \<open>
  \<^verbatim>\<open>bodyParser.json({ limit: "2mb" })\<close>. A request without a JSON payload gets the
  empty object as its body. The parser is strict by default: JSON text whose value is not
  an object or an array is refused like text that is not JSON. A refusal is passed on as
  an error with its HTTP status (413 above the limit, 400 otherwise); the application
  installs no error handler, so the framework answers it.
\<close>

fun bodyParser_json :: "raw_body \<Rightarrow> nat + json" where
  "bodyParser_json NoJson = Inr (JObj [])"
| "bodyParser_json Oversized = Inl 413"
| "bodyParser_json Malformed = Inl 400"
| "bodyParser_json (Json (JObj es)) = Inr (JObj es)"
| "bodyParser_json (Json (JArr xs)) = Inr (JArr xs)"
| "bodyParser_json (Json _) = Inl 400"

definition framework_reply :: "nat \<Rightarrow> response \<Rightarrow> response" where
  "framework_reply code res = res\<lparr>status := code, payload := FrameworkPage\<rparr>"

text \<open>
  Route paths are matched without regard to the case of ASCII letters and with an
  optional trailing slash, the framework's defaults.
\<close>

definition lower_char :: "char \<Rightarrow> char" where
  "lower_char c = (let n = (of_char c :: nat) in if 65 \<le> n \<and> n \<le> 90 then char_of (n + 32) else c)"

definition route_matches :: "string \<Rightarrow> string \<Rightarrow> bool" where
  "route_matches route p =
     (let q = map lower_char p in q = route \<or> (q = route @ ''/'' \<and> route \<noteq> ''/''))"

definition root_handler :: "response \<Rightarrow> response" where
  "root_handler res =
     send_json (JObj [(''ok'', JBool True), (''tip'', JStr ''use /status, /wrap, /unwrap'')]) res"

definition status_handler :: "string \<Rightarrow> response \<Rightarrow> response" where
  "status_handler KMS_KEY_RESOURCE res =
     send_json (JObj [(''server_type'', JStr ''KACLS''),
                      (''vendor_id'', JStr ''POC''),
                      (''version'', JStr ''2.3.0''),
                      (''operations_supported'', JArr [JStr ''wrap'', JStr ''unwrap'']),
                      (''key_resource'', JStr KMS_KEY_RESOURCE)]) res"

definition wellknown_handler :: "response \<Rightarrow> response" where
  "wellknown_handler res =
     send_json (JObj [(''ok'', JBool True), (''path'', JStr ''/.well-known/kacls'')]) res"

definition wrap_preferred :: "string list" where
  "wrap_preferred =
     [''key'', ''key_to_wrap_b64'', ''keyToWrapB64'', ''keyToWrap'',
      ''dek'', ''plaintext_b64'', ''plaintext'', ''data'']"

definition unwrap_preferred :: "string list" where
  "unwrap_preferred =
     [''wrapped_key'', ''wrapped_key_b64'', ''wrappedKeyB64'', ''wrappedDek'',
      ''ciphertext_b64'', ''ciphertext'', ''data'']"

text \<open>\<^verbatim>\<open>Object.keys(req.body || {})\<close>\<close>

definition received_keys :: "json \<Rightarrow> json" where
  "received_keys body = JArr (map JStr (object_keys (if truthy body then body else JObj [])))"

text \<open>\<^verbatim>\<open>req.body?.reason\<close> when it is a string.\<close>

definition reason_of :: "json \<Rightarrow> string option" where
  "reason_of body = (case get_prop body ''reason'' of Some (JStr s) \<Rightarrow> Some s | _ \<Rightarrow> None)"

definition wrap_handler ::
  "'p kms_client \<Rightarrow> string \<Rightarrow> 'p \<Rightarrow> json \<Rightarrow> response \<Rightarrow> response \<times> 'p" where
  "wrap_handler kms KMS_KEY_RESOURCE p body res =
     (case pickBase64 body wrap_preferred True of
        None \<Rightarrow>
          (case reason_of body of
             Some reason \<Rightarrow>
               (send_json (JObj [(''ok'', JBool True),
                                 (''note'', JStr ''noop (error envelope)''),
                                 (''reason'', JStr reason)]) res, p)
           | None \<Rightarrow>
               (send_json (JObj [(''error'', JStr ''missing DEK (base64)''),
                                 (''received_keys'', received_keys body)])
                  (set_status 400 res), p))
      | Some got \<Rightarrow>
          (case b64urlToBuf (JStr (b64 got)) of
             None \<Rightarrow>
               (send_json (JObj [(''error'', JStr ''invalid base64/plaintext'')])
                  (set_status 400 res), p)
           | Some plaintext \<Rightarrow>
               (case encrypt kms p KMS_KEY_RESOURCE plaintext of
                  (Inr ciphertext, p') \<Rightarrow>
                    (send_json (JObj [(''wrapped_key'', JStr (base64 ciphertext))]) res, p')
                | (Inl e, p') \<Rightarrow>
                    (send_json (JObj [(''error'', JStr ''wrap_failed''),
                                      (''detail'', JStr (error_detail e))])
                       (set_status 500 res), p'))))"

definition unwrap_handler ::
  "'p kms_client \<Rightarrow> string \<Rightarrow> 'p \<Rightarrow> json \<Rightarrow> response \<Rightarrow> response \<times> 'p" where
  "unwrap_handler kms KMS_KEY_RESOURCE p body res =
     (case pickBase64 body unwrap_preferred True of
        None \<Rightarrow>
          (send_json (JObj [(''error'', JStr ''missing wrapped_key/ciphertext (base64)''),
                            (''received_keys'', received_keys body)])
             (set_status 400 res), p)
      | Some got \<Rightarrow>
          (case b64urlToBuf (JStr (b64 got)) of
             None \<Rightarrow>
               (send_json (JObj [(''error'', JStr ''invalid base64/ciphertext'')])
                  (set_status 400 res), p)
           | Some ciphertext \<Rightarrow>
               (case decrypt kms p KMS_KEY_RESOURCE ciphertext of
                  (Inr plaintext, p') \<Rightarrow>
                    (send_json (JObj [(''key'', JStr (base64 plaintext))]) res, p')
                | (Inl e, p') \<Rightarrow>
                    (send_json (JObj [(''error'', JStr ''unwrap_failed''),
                                      (''detail'', JStr (error_detail e))])
                       (set_status 500 res), p'))))"

text \<open>
  The application: the CORS middleware, the body parser, then the routes in the order
  they are registered; a request no route takes gets the framework's 404.
\<close>

definition service :: "'p kms_client \<Rightarrow> string \<Rightarrow> 'p \<Rightarrow> request \<Rightarrow> response \<times> 'p" where
  "service kms KMS_KEY_RESOURCE p req =
     (let res = cors_headers req new_response in
        if is_preflight req then (set_status 204 res, p)
        else
          case bodyParser_json (raw req) of
            Inl code \<Rightarrow> (framework_reply code res, p)
          | Inr body \<Rightarrow>
              if req_method req = ''GET'' \<and> route_matches ''/'' (url_path req)
                then (root_handler res, p)
              else if req_method req = ''GET'' \<and> route_matches ''/status'' (url_path req)
                then (status_handler KMS_KEY_RESOURCE res, p)
              else if req_method req = ''GET'' \<and> route_matches ''/.well-known/kacls'' (url_path req)
                then (wellknown_handler res, p)
              else if req_method req = ''POST'' \<and> route_matches ''/wrap'' (url_path req)
                then wrap_handler kms KMS_KEY_RESOURCE p body res
              else if req_method req = ''POST'' \<and> route_matches ''/unwrap'' (url_path req)
                then unwrap_handler kms KMS_KEY_RESOURCE p body res
              else (framework_reply 404 res, p))"

section \<open>Example providers and requests\<close>

text \<open>
  Three providers to run the service on. Each counts the calls it receives in its state.
  The first reverses the bytes in both directions, so its decrypt inverts its encrypt. The
  second exchanges the four-byte buffer of zeros with the one-byte buffer of a zero and
  leaves every other buffer as it is; its decrypt inverts its encrypt too. The third
  throws on every call, an error without a message on decrypt.
\<close>

definition reversing_kms :: "nat kms_client" where
  "reversing_kms =
     \<lparr>encrypt = (\<lambda>n kr b. (Inr (rev b), Suc n)),
      decrypt = (\<lambda>n kr c. (Inr (rev c), Suc n))\<rparr>"

definition swap_bytes :: "byte list \<Rightarrow> byte list" where
  "swap_bytes b = (if b = [0, 0, 0, 0] then [0] else if b = [0] then [0, 0, 0, 0] else b)"

definition swap_kms :: "nat kms_client" where
  "swap_kms =
     \<lparr>encrypt = (\<lambda>n kr b. (Inr (swap_bytes b), Suc n)),
      decrypt = (\<lambda>n kr c. (Inr (swap_bytes c), Suc n))\<rparr>"

definition failing_kms :: "nat kms_client" where
  "failing_kms =
     \<lparr>encrypt = (\<lambda>n kr b. (Inl (JsError ''Error'' ''7 PERMISSION_DENIED''), Suc n)),
      decrypt = (\<lambda>n kr c. (Inl (JsError ''Error'' []), Suc n))\<rparr>"

text \<open>A POST request without headers.\<close>

definition post_request :: "string \<Rightarrow> raw_body \<Rightarrow> request" where
  "post_request p b = \<lparr>req_method = ''POST'', url_path = p, req_headers = Map.empty, raw = b\<rparr>"

section \<open>The codec: decoding inverts encoding\<close>

lemma char_eq_nat: "(c = d) = ((of_char c :: nat) = of_char d)"
  by (metis char_of_comp_of_char comp_apply id_apply) 

lemma of_char_digit:
  "i < 64 \<Longrightarrow> (of_char (b64_digit i) :: nat) =
     (if i < 26 then 65 + i else if i < 52 then 71 + i else if i < 62 then i - 4
      else if i = 62 then 43 else 47)"
  by (simp add: b64_digit_def)

lemma unbase64_nat:
  "unbase64 c =
     (let n = (of_char c :: nat) in
        if 65 \<le> n \<and> n \<le> 90 then Some (n - 65)
        else if 97 \<le> n \<and> n \<le> 122 then Some (n - 71)
        else if 48 \<le> n \<and> n \<le> 57 then Some (n + 4)
        else if n = 43 \<or> n = 45 then Some 62
        else if n = 47 \<or> n = 95 then Some 63
        else None)"
  by (simp add: unbase64_def char_eq_nat Let_def)

lemma unbase64_digit: "i < 64 \<Longrightarrow> unbase64 (b64_digit i) = Some i"
  by (auto simp add: unbase64_nat of_char_digit Let_def)


lemma digit_not_pad: "i < 64 \<Longrightarrow> b64_digit i \<noteq> CHR ''=''"
  by (auto simp add: char_eq_nat of_char_digit)

lemma digit_is_b64_char: "i < 64 \<Longrightarrow> is_b64_char (b64_digit i)"
  by (auto simp add: is_b64_char_def char_eq_nat of_char_digit Let_def)

lemma digit_not_space: "i < 64 \<Longrightarrow> \<not> is_space (b64_digit i)"
  by (auto simp add: is_space_def of_char_digit)

lemma digit_standard: "i < 64 \<Longrightarrow> to_standard (b64_digit i) = b64_digit i"
  by (auto simp add: to_standard_def char_eq_nat of_char_digit)

lemma recombine:
  fixes n :: nat
  shows "(n div 262144) * 262144 + (n div 4096 mod 64) * 4096 + (n div 64 mod 64) * 64 + n mod 64 = n"
proof -
  have 1: "n mod 4096 = 64 * (n div 64 mod 64) + n mod 64"
    using mod_mult2_eq[of n 64 64] by simp
  have 2: "n mod 262144 = 4096 * (n div 4096 mod 64) + n mod 4096"
    using mod_mult2_eq[of n 4096 64] by simp
  have 3: "n = 262144 * (n div 262144) + n mod 262144"
    by simp
  show ?thesis
    using 1 2 3 by (simp add: mult.commute)
qed


lemma byte_lt: "unat (a :: byte) < 256"
  using unsigned_less[of a, where 'a=nat] by simp

lemma group3:
  fixes a b c :: nat
  assumes "a < 256" "b < 256" "c < 256"
  shows "(a * 65536 + b * 256 + c) div 65536 = a"
    and "(a * 65536 + b * 256 + c) div 256 mod 256 = b"
    and "(a * 65536 + b * 256 + c) mod 256 = c"
    and "(a * 65536 + b * 256 + c) div 262144 < 64"
proof -
  show "(a * 65536 + b * 256 + c) div 65536 = a" using assms by simp
  have "(a * 65536 + b * 256 + c) div 256 = a * 256 + b" using assms by simp
  then show "(a * 65536 + b * 256 + c) div 256 mod 256 = b" using assms by simp
  have "a * 65536 + b * 256 + c = (a * 256 + b) * 256 + c" by simp
  then show "(a * 65536 + b * 256 + c) mod 256 = c" using assms by (metis mod_mult_self3 mod_less)
  show "(a * 65536 + b * 256 + c) div 262144 < 64" using assms by simp
qed

lemma group2:
  fixes a b :: nat
  assumes "a < 256" "b < 256"
  shows "(a * 1024 + b * 4) div 1024 = a"
    and "(a * 1024 + b * 4) div 4 mod 256 = b"
    and "(a * 1024 + b * 4) div 4096 < 64"
    and "(a * 1024 + b * 4) div 4096 * 4096 + (a * 1024 + b * 4) div 64 mod 64 * 64 + (a * 1024 + b * 4) mod 64
          = a * 1024 + b * 4"
proof -
  let ?n = "a * 1024 + b * 4"
  show "?n div 1024 = a" using assms by simp
  have "?n div 4 = a * 256 + b" by simp
  then show "?n div 4 mod 256 = b" using assms by simp
  show "?n div 4096 < 64" using assms by simp
  have 1: "?n mod 4096 = 64 * (?n div 64 mod 64) + ?n mod 64"
    using mod_mult2_eq[of ?n 64 64] by simp
  have 3: "?n = 4096 * (?n div 4096) + ?n mod 4096"
    by simp
  show "?n div 4096 * 4096 + ?n div 64 mod 64 * 64 + ?n mod 64 = ?n"
    using 1 3 by (simp add: mult.commute)
qed

lemma group1:
  fixes a :: nat
  assumes "a < 256"
  shows "((a * 16) div 64 * 64 + (a * 16) mod 64) div 16 = a" and "(a * 16) div 64 < 64"
proof -
  have "(a * 16) div 64 * 64 + (a * 16) mod 64 = a * 16" by (rule div_mult_mod_eq)
  then show "((a * 16) div 64 * 64 + (a * 16) mod 64) div 16 = a" by simp
  show "(a * 16) div 64 < 64" using assms by simp
qed


lemma decode_group3:
  fixes a b c :: byte
  shows "sextets_to_bytes
           ((let n = unat a * 65536 + unat b * 256 + unat c
             in [n div 262144, n div 4096 mod 64, n div 64 mod 64, n mod 64]) @ rest)
         = a # b # c # sextets_to_bytes rest"
  using group3[OF byte_lt[of a] byte_lt[of b] byte_lt[of c]]
  by (simp add: Let_def recombine)

lemma decode_group2:
  fixes a b :: byte
  shows "sextets_to_bytes
           (let n = unat a * 1024 + unat b * 4 in [n div 4096, n div 64 mod 64, n mod 64])
         = [a, b]"
  using group2[OF byte_lt[of a] byte_lt[of b]]
  by (simp add: Let_def)

lemma decode_group1:
  fixes a :: byte
  shows "sextets_to_bytes (let n = unat a * 16 in [n div 64, n mod 64]) = [a]"
  using group1[OF byte_lt[of a]]
  by (simp add: Let_def)


text \<open>The six-bit values the encoder writes for a buffer, and the padding it appends.\<close>

fun sextets :: "byte list \<Rightarrow> nat list" where
  "sextets (a # b # c # rest) =
     (let n = unat a * 65536 + unat b * 256 + unat c
      in [n div 262144, n div 4096 mod 64, n div 64 mod 64, n mod 64]) @ sextets rest"
| "sextets [a, b] = (let n = unat a * 1024 + unat b * 4 in [n div 4096, n div 64 mod 64, n mod 64])"
| "sextets [a] = (let n = unat a * 16 in [n div 64, n mod 64])"
| "sextets [] = []"

fun padding :: "byte list \<Rightarrow> string" where
  "padding (a # b # c # rest) = padding rest"
| "padding [a, b] = ''=''"
| "padding [a] = ''==''"
| "padding [] = []"

lemma base64_split: "base64 bs = map b64_digit (sextets bs) @ padding bs"
  by (induction bs rule: base64.induct) (simp_all add: Let_def)

lemma sextets_lt: "s \<in> set (sextets bs) \<Longrightarrow> s < 64"
proof (induction bs arbitrary: s rule: sextets.induct)
  case (1 a b c rest)
  have "(unat a * 65536 + unat b * 256 + unat c) div 262144 < 64"
    by (rule group3(4)[OF byte_lt byte_lt byte_lt])
  with 1 show ?case by (auto simp: Let_def)
next
  case (2 a b)
  have "(unat a * 1024 + unat b * 4) div 4096 < 64"
    by (rule group2(3)[OF byte_lt byte_lt])
  with 2 show ?case by (auto simp: Let_def)
next
  case (3 a)
  have "(unat a * 16) div 64 < 64"
    by (rule group1(2)[OF byte_lt])
  with 3 show ?case by (auto simp: Let_def)
next
  case 4
  then show ?case by simp
qed

lemma sextets_inverse: "sextets_to_bytes (sextets bs) = bs"
proof (induction bs rule: sextets.induct)
  case (1 a b c rest)
  then show ?case using decode_group3[of a b c "sextets rest"] by simp
next
  case (2 a b)
  show ?case using decode_group2[of a b] by simp
next
  case (3 a)
  show ?case using decode_group1[of a] by simp
next
  case 4
  show ?case by simp
qed

lemma padding_pad: "list_all (\<lambda>c. c = CHR ''='') (padding bs)"
  by (induction bs rule: padding.induct) simp_all

lemma unbase64_digits:
  "(\<And>s. s \<in> set ss \<Longrightarrow> s < 64) \<Longrightarrow> List.map_filter unbase64 (map b64_digit ss) = ss"
  by (induction ss) (simp_all add: List.map_filter_simps unbase64_digit)

lemma takeWhile_digits:
  assumes "\<And>s. s \<in> set ss \<Longrightarrow> s < 64" and "list_all (\<lambda>c. c = CHR ''='') pad"
  shows "takeWhile (\<lambda>c. c \<noteq> CHR ''='') (map b64_digit ss @ pad) = map b64_digit ss"
  using assms
proof (induction ss)
  case Nil
  then show ?case by (cases pad) auto
next
  case (Cons s ss)
  then show ?case by (simp add: digit_not_pad)
qed

lemma buffer_from_base64_inverse: "buffer_from_base64 (base64 bs) = bs"
  unfolding buffer_from_base64_def base64_split
  by (simp add: takeWhile_digits[OF sextets_lt padding_pad] unbase64_digits[OF sextets_lt] sextets_inverse)


lemma length_base64: "length (base64 bs) mod 4 = 0"
  by (induction bs rule: base64.induct) (simp_all add: Let_def)

lemma pad4_aligned: "length s mod 4 = 0 \<Longrightarrow> pad4 s = s"
  by (simp add: pad4.simps)

lemma base64_chars:
  "c \<in> set (base64 bs) \<Longrightarrow> \<not> is_space c \<and> to_standard c = c"
proof -
  assume "c \<in> set (base64 bs)"
  then consider s where "s \<in> set (sextets bs)" "c = b64_digit s" | "c \<in> set (padding bs)"
    unfolding base64_split by auto
  then show ?thesis
  proof cases
    case 1
    then show ?thesis using sextets_lt[of s bs] by (simp add: digit_not_space digit_standard)
  next
    case 2
    then have "c = CHR ''=''" using padding_pad[of bs] by (auto simp: list_all_iff)
    then show ?thesis by (simp add: is_space_def to_standard_def)
  qed
qed

lemma trim_no_space: "(\<And>c. c \<in> set s \<Longrightarrow> \<not> is_space c) \<Longrightarrow> trim s = s"
proof -
  assume a: "\<And>c. c \<in> set s \<Longrightarrow> \<not> is_space c"
  have "dropWhile is_space t = t" if "\<And>c. c \<in> set t \<Longrightarrow> \<not> is_space c" for t
    using that by (cases t) auto
  from this[of s] this[of "rev s"] a show ?thesis unfolding trim_def by simp
qed

lemma b64urlToBuf_base64: "b64urlToBuf (JStr (base64 bs)) = Some bs"
proof -
  have 1: "trim (base64 bs) = base64 bs"
    by (rule trim_no_space) (simp add: base64_chars)
  have 2: "map to_standard (base64 bs) = base64 bs"
    by (rule map_idI) (simp add: base64_chars)
  show ?thesis
    by (simp add: 1 2 pad4_aligned length_base64 buffer_from_base64_inverse)
qed

lemma sextets_nonempty: "bs \<noteq> [] \<Longrightarrow> sextets bs \<noteq> []"
  by (induction bs rule: sextets.induct) (simp_all add: Let_def)

lemma b64_regex_base64:
  assumes "bs \<noteq> []"
  shows "b64_regex (base64 bs)"
proof -
  have pad: "takeWhile is_b64_char pad = [] \<and> dropWhile is_b64_char pad = pad"
    if "list_all (\<lambda>c. c = CHR ''='') pad" for pad
    using that by (cases pad) (auto simp: is_b64_char_def)
  have tw: "takeWhile is_b64_char (map b64_digit ss @ pad) = map b64_digit ss
            \<and> dropWhile is_b64_char (map b64_digit ss @ pad) = pad"
    if "\<And>s. s \<in> set ss \<Longrightarrow> s < 64" "list_all (\<lambda>c. c = CHR ''='') pad" for ss pad
    using that
  proof (induction ss)
    case Nil
    then show ?case using pad by simp
  next
    case (Cons s ss)
    then show ?case by (simp add: digit_is_b64_char)
  qed
  show ?thesis
    unfolding b64_regex_def base64_split
    using tw[of "sextets bs" "padding bs", OF sextets_lt padding_pad] sextets_nonempty[OF assms]
      padding_pad[of bs]
    by simp
qed

lemma looksLikeB64_base64: "8 \<le> length (base64 bs) \<Longrightarrow> looksLikeB64 (JStr (base64 bs))"
proof -
  assume a: "8 \<le> length (base64 bs)"
  then have "bs \<noteq> []" by auto
  with a show ?thesis by (simp add: b64_regex_base64)
qed

section \<open>The locator\<close>

lemma pickBase64_primitive:
  "pickBase64 JUndefined ks r = None" "pickBase64 JNull ks r = None"
  "pickBase64 (JBool b) ks r = None" "pickBase64 (JNum n) ks r = None"
  "pickBase64 (JStr s) ks r = None"
  by (simp_all add: pickBase64.simps)

lemma pickBase64_preferred_pass:
  assumes "truthy body" "typeof body = ''object''"
    and "first_some (preferred_hit body ks r) ks = Some hit"
  shows "pickBase64 body ks r = Some hit"
proof -
  have "first_some (preferred_hit body ks r) ks
        = first_some (\<lambda>k. case get_prop body k of
                      None \<Rightarrow> None
                    | Some v \<Rightarrow>
                        if looksLikeB64 v then
                          (case v of JStr s \<Rightarrow> Some \<lparr>key = k, b64 = s, path = k\<rparr> | _ \<Rightarrow> None)
                        else if typeof v = ''object'' then
                          map_option (under_key k) (pickBase64 v ks r)
                        else None) ks"
    by (rule first_some_cong) (simp_all add: preferred_hit_def)
  with assms show ?thesis
    by (subst pickBase64.simps) simp
qed

lemma first_some_skip:
  "(\<And>x. x \<in> set pre \<Longrightarrow> f x = None) \<Longrightarrow> f k = Some r \<Longrightarrow> first_some f (pre @ k # post) = Some r"
  by (induction pre) simp_all

lemma preferred_hit_string:
  "map_of es k = Some (JStr s) \<Longrightarrow> looksLikeB64 (JStr s) \<Longrightarrow>
   preferred_hit (JObj es) ks r k = Some \<lparr>key = k, b64 = s, path = k\<rparr>"
  by (simp add: preferred_hit_def)

text \<open>
  C1, as the code has it. Take an object body and a preferred-name list. A preferred name
  yields a candidate when its value is a qualifying string (the candidate is that string,
  with the name as key and path), or an object or array in which \<^verbatim>\<open>pickBase64\<close> itself,
  preferred names first and then the structural pass when it is enabled, finds a candidate
  (the candidate is that one, its path prefixed with the name and a dot). The locator
  returns the candidate of the earliest name of the list that yields one. The result is
  the same for every body that agrees with this one on that name and on the names before
  it: it depends neither on what the later preferred names hold nor on the fields the
  body has under other names.
\<close>

theorem pickBase64_earliest_preferred:
  assumes "ks = pre @ k # post"
    and "\<forall>k' \<in> set pre. preferred_hit (JObj es) ks r k' = None"
    and "preferred_hit (JObj es) ks r k = Some hit"
    and "\<forall>n \<in> set (pre @ [k]). map_of es' n = map_of es n"
  shows "pickBase64 (JObj es') ks r = Some hit"
proof -
  have same: "preferred_hit (JObj es') ks r n = preferred_hit (JObj es) ks r n"
    if "n \<in> set (pre @ [k])" for n
  proof -
    from that assms(4) have "map_of es' n = map_of es n" by blast
    then show ?thesis by (simp add: preferred_hit_def)
  qed
  have "first_some (preferred_hit (JObj es') ks r) (pre @ k # post) = Some hit"
  proof (rule first_some_skip)
    fix x assume "x \<in> set pre"
    then show "preferred_hit (JObj es') ks r x = None"
      using assms(2) same[of x] by simp
  next
    show "preferred_hit (JObj es') ks r k = Some hit"
      using assms(3) same[of k] by simp
  qed
  then show ?thesis
    using assms(1) by (intro pickBase64_preferred_pass) simp_all
qed

text \<open>
  The theorem at a body where the earliest preferred name present is \<^verbatim>\<open>dek\<close>: it wins
  over the later preferred name \<^verbatim>\<open>data\<close>, which holds a qualifying string one level
  down, and over the field \<^verbatim>\<open>zzz\<close>, which comes first in the body.
\<close>

theorem pickBase64_earliest_preferred_witness:
  "pickBase64
     (JObj [(''zzz'', JStr ''CCCCCCCC''),
            (''data'', JObj [(''key'', JStr ''AAAAAAAA'')]),
            (''dek'', JStr ''BBBBBBBB'')])
     wrap_preferred True
   = Some \<lparr>key = ''dek'', b64 = ''BBBBBBBB'', path = ''dek''\<rparr>"
proof -
  let ?es = "[(''dek'', JStr ''BBBBBBBB'')]"
  have 1: "wrap_preferred =
             [''key'', ''key_to_wrap_b64'', ''keyToWrapB64'', ''keyToWrap''] @
             ''dek'' # [''plaintext_b64'', ''plaintext'', ''data'']"
    by (simp add: wrap_preferred_def)
  have 2: "\<forall>k' \<in> set [''key'', ''key_to_wrap_b64'', ''keyToWrapB64'', ''keyToWrap''].
             preferred_hit (JObj ?es) wrap_preferred True k' = None"
    by code_simp
  have 3: "preferred_hit (JObj ?es) wrap_preferred True ''dek''
           = Some \<lparr>key = ''dek'', b64 = ''BBBBBBBB'', path = ''dek''\<rparr>"
    by code_simp
  have 4: "\<forall>n \<in> set ([''key'', ''key_to_wrap_b64'', ''keyToWrapB64'', ''keyToWrap''] @ [''dek'']).
             map_of [(''zzz'', JStr ''CCCCCCCC''),
                     (''data'', JObj [(''key'', JStr ''AAAAAAAA'')]),
                     (''dek'', JStr ''BBBBBBBB'')] n = map_of ?es n"
    by code_simp
  show ?thesis by (rule pickBase64_earliest_preferred[OF 1 2 3 4])
qed

text \<open>
  C1 as the specification states it fails. In the body below the only qualifying string
  under preferred names is the one of \<^verbatim>\<open>dek\<close>, which is what the search through
  preferred names alone (\<^verbatim>\<open>enableRecursive = false\<close>) returns. The full search returns
  the string of the field \<^verbatim>\<open>other\<close> instead: it is found by the structural pass inside
  the object held by the earlier preferred name \<^verbatim>\<open>key\<close>, before \<^verbatim>\<open>dek\<close> is tried.
\<close>

theorem pickBase64_structural_before_later_preferred:
  "pickBase64 (JObj [(''key'', JObj [(''other'', JStr ''AAAAAAAA'')]), (''dek'', JStr ''BBBBBBBB'')])
     wrap_preferred False
   = Some \<lparr>key = ''dek'', b64 = ''BBBBBBBB'', path = ''dek''\<rparr>
   \<and> pickBase64 (JObj [(''key'', JObj [(''other'', JStr ''AAAAAAAA'')]), (''dek'', JStr ''BBBBBBBB'')])
       wrap_preferred True
     = Some \<lparr>key = ''other'', b64 = ''AAAAAAAA'', path = ''key.other''\<rparr>"
  by code_simp

text \<open>
  C2 at an input where the code departs from it. A qualifying string that is an element of
  an array is not found: the array branch of the structural pass only recurses into its
  elements, and the recursive call refuses a string. The branch for objects tests each
  value first, so the same string held by a field of an object is found.
\<close>

theorem pickBase64_misses_array_element:
  "pickBase64 (JObj [(''items'', JArr [JStr ''QUJDREVGR0g='' ])]) wrap_preferred True = None
   \<and> pickBase64 (JObj [(''items'', JObj [(''first'', JStr ''QUJDREVGR0g='')])]) wrap_preferred True
       = Some \<lparr>key = ''first'', b64 = ''QUJDREVGR0g='', path = ''items.first''\<rparr>"
  by code_simp

section \<open>More on the locator\<close>

lemma first_some_SomeD: "first_some f xs = Some r \<Longrightarrow> \<exists>x \<in> set xs. f x = Some r"
  by (induction xs) (auto split: option.splits)

lemma pickBase64_unfold:
  "pickBase64 body ks r =
     (if \<not> truthy body \<or> typeof body \<noteq> ''object'' then None
      else
        case first_some (preferred_hit body ks r) ks of
          Some hit \<Rightarrow> Some hit
        | None \<Rightarrow>
            if \<not> r then None
            else
              (case body of
                 JArr xs \<Rightarrow>
                   first_some
                     (\<lambda>(i, x). map_option (under_index i) (pickBase64 x ks r))
                     (enumerate 0 xs)
               | JObj es \<Rightarrow>
                   first_some
                     (\<lambda>(k, v).
                        if looksLikeB64 v then
                          (case v of JStr s \<Rightarrow> Some \<lparr>key = k, b64 = s, path = k\<rparr> | _ \<Rightarrow> None)
                        else if truthy v \<and> typeof v = ''object'' then
                          map_option (under_key k) (pickBase64 v ks r)
                        else None)
                     es
               | _ \<Rightarrow> None))"
proof -
  have pref: "first_some (preferred_hit body ks r) ks
        = first_some (\<lambda>k. case get_prop body k of
                      None \<Rightarrow> None
                    | Some v \<Rightarrow>
                        if looksLikeB64 v then
                          (case v of JStr s \<Rightarrow> Some \<lparr>key = k, b64 = s, path = k\<rparr> | _ \<Rightarrow> None)
                        else if typeof v = ''object'' then
                          map_option (under_key k) (pickBase64 v ks r)
                        else None) ks"
    by (rule first_some_cong) (simp_all add: preferred_hit_def)
  show ?thesis unfolding pref by (rule pickBase64.simps)
qed

text \<open>
  Every candidate the locator returns satisfies the heuristic, by induction on the size of
  the body.
\<close>

lemma pickBase64_qualifies:
  "pickBase64 body ks r = Some got \<Longrightarrow> looksLikeB64 (JStr (b64 got))"
proof (induction "size body" arbitrary: body got rule: less_induct)
  case less
  note IH = less.hyps
  note run = less.prems[unfolded pickBase64_unfold[of body]]
  show ?case
  proof (cases "first_some (preferred_hit body ks r) ks")
    case (Some hit)
    with run have eq: "hit = got" by (simp split: if_splits)
    from Some obtain k where k: "preferred_hit body ks r k = Some got"
      using first_some_SomeD eq by fastforce
    then obtain v where v: "get_prop body k = Some v"
      by (auto simp: preferred_hit_def split: option.splits)
    show ?thesis
    proof (cases "looksLikeB64 v")
      case True
      with k v show ?thesis by (cases v) (auto simp: preferred_hit_def)
    next
      case False
      with k v obtain inner where inner: "pickBase64 v ks r = Some inner" "got = under_key k inner"
        by (auto simp: preferred_hit_def split: if_splits)
      from IH[OF get_prop_size[OF v] inner(1)] inner(2) show ?thesis
        by (simp add: under_key_def)
    qed
  next
    case None
    show ?thesis
    proof (cases body)
      case (JArr xs)
      with run None
      have "first_some (\<lambda>(i, x). map_option (under_index i) (pickBase64 x ks r)) (enumerate 0 xs) = Some got"
        by (simp split: if_splits)
      then obtain i x where ix: "(i, x) \<in> set (enumerate 0 xs)"
          "map_option (under_index i) (pickBase64 x ks r) = Some got"
        using first_some_SomeD by fastforce
      then obtain found where f: "pickBase64 x ks r = Some found" "got = under_index i found"
        by auto
      have "x \<in> set xs" using ix(1) by (auto simp: in_set_enumerate_eq)
      then have "size x < size body" using JArr elem_size by simp
      from IH[OF this f(1)] f(2) show ?thesis by (simp add: under_index_def)
    next
      case (JObj es)
      with run None
      have "first_some (\<lambda>(k, v).
                        if looksLikeB64 v then
                          (case v of JStr s \<Rightarrow> Some \<lparr>key = k, b64 = s, path = k\<rparr> | _ \<Rightarrow> None)
                        else if truthy v \<and> typeof v = ''object'' then
                          map_option (under_key k) (pickBase64 v ks r)
                        else None) es = Some got"
        by (simp split: if_splits)
      then obtain k v where kv: "(k, v) \<in> set es"
          "(if looksLikeB64 v then
                          (case v of JStr s \<Rightarrow> Some \<lparr>key = k, b64 = s, path = k\<rparr> | _ \<Rightarrow> None)
                        else if truthy v \<and> typeof v = ''object'' then
                          map_option (under_key k) (pickBase64 v ks r)
                        else None) = Some got"
        using first_some_SomeD by fastforce
      show ?thesis
      proof (cases "looksLikeB64 v")
        case True
        with kv(2) show ?thesis by (cases v) auto
      next
        case False
        with kv(2) obtain found where f: "pickBase64 v ks r = Some found" "got = under_key k found"
          by (auto split: if_splits)
        have "size v < size body" using JObj entry_size[OF kv(1)] by simp
        from IH[OF this f(1)] f(2) show ?thesis by (simp add: under_key_def)
      qed
    qed (use run None in \<open>auto split: if_splits\<close>)
  qed
qed

lemma pick_single_key:
  assumes "looksLikeB64 (JStr s)"
  shows "pickBase64 (JObj [(''key'', JStr s)]) wrap_preferred True
           = Some \<lparr>key = ''key'', b64 = s, path = ''key''\<rparr>"
    and "pickBase64 (JObj [(''wrapped_key'', JStr s)]) unwrap_preferred True
           = Some \<lparr>key = ''wrapped_key'', b64 = s, path = ''wrapped_key''\<rparr>"
  using assms
  by (simp_all add: pickBase64.simps wrap_preferred_def unwrap_preferred_def)

lemma b64_regex_chars:
  assumes "b64_regex s" "c \<in> set s"
  shows "is_b64_char c \<or> c = CHR ''=''"
proof -
  have "s = takeWhile is_b64_char s @ dropWhile is_b64_char s" by simp
  then have "c \<in> set (takeWhile is_b64_char s) \<or> c \<in> set (dropWhile is_b64_char s)"
    using assms(2) by (metis Un_iff set_append)
  then show ?thesis
    using assms(1) by (auto simp: b64_regex_def list_all_iff dest: set_takeWhileD)
qed

lemma b64_char_not_space: "is_b64_char c \<or> c = CHR ''='' \<Longrightarrow> \<not> is_space c"
  by (auto simp: is_b64_char_def is_space_def Let_def)

lemma trim_looksLikeB64: "looksLikeB64 (JStr s) \<Longrightarrow> trim s = s"
proof (rule trim_no_space)
  fix c assume "looksLikeB64 (JStr s)" "c \<in> set s"
  then have "is_b64_char c \<or> c = CHR ''=''" using b64_regex_chars[of s c] by simp
  then show "\<not> is_space c" by (rule b64_char_not_space)
qed

lemma base64_examples:
  "base64 [72, 101, 108, 108, 111] = ''SGVsbG8=''"
  "base64 [111, 108, 108, 101, 72] = ''b2xsZUg=''"
  "base64 [0, 0, 0, 0] = ''AAAAAA==''"
  "base64 [0] = ''AA==''"
  by (simp_all add: b64_digit_def Let_def char_eq_nat)

section \<open>The service\<close>

lemma route_unwrap_not_wrap: "route_matches ''/unwrap'' q \<Longrightarrow> \<not> route_matches ''/wrap'' q"
  by (auto simp: route_matches_def Let_def)

lemma route_self: "route_matches ''/wrap'' ''/wrap''" "route_matches ''/unwrap'' ''/unwrap''"
  "route_matches ''/status'' ''/status''"
  by (simp_all add: route_matches_def lower_char_def char_eq_nat)

lemma cors_header_values:
  "map_of (headers (cors_headers req new_response)) ''Access-Control-Allow-Origin''
     = Some (header_or (req_headers req ''origin'') default_origin)"
  "map_of (headers (cors_headers req new_response)) ''Vary'' = Some ''Origin''"
  "map_of (headers (cors_headers req new_response)) ''Access-Control-Max-Age'' = Some ''86400''"
  by (simp_all add: cors_headers_def setHeader_def new_response_def Let_def)

lemma cors_status_payload:
  "status (cors_headers req new_response) = 200" "payload (cors_headers req new_response) = Empty"
  by (simp_all add: cors_headers_def setHeader_def new_response_def Let_def)

lemma service_post_wrap:
  assumes "req_method req = ''POST''" "route_matches ''/wrap'' (url_path req)"
    and "bodyParser_json (raw req) = Inr body"
  shows "service kms kr p req = wrap_handler kms kr p body (cors_headers req new_response)"
  using assms by (simp add: service_def is_preflight_def Let_def)

lemma service_post_unwrap:
  assumes "req_method req = ''POST''" "route_matches ''/unwrap'' (url_path req)"
    and "bodyParser_json (raw req) = Inr body"
  shows "service kms kr p req = unwrap_handler kms kr p body (cors_headers req new_response)"
  using assms route_unwrap_not_wrap[OF assms(2)] by (simp add: service_def is_preflight_def Let_def)

lemma wrap_no_candidate:
  assumes "pickBase64 body wrap_preferred True = None"
  shows "wrap_handler kms kr p body res =
     (case reason_of body of
        Some reason \<Rightarrow>
          (res\<lparr>payload := JsonBody (JObj [(''ok'', JBool True),
                                  (''note'', JStr ''noop (error envelope)''),
                                  (''reason'', JStr reason)])\<rparr>, p)
      | None \<Rightarrow>
          (res\<lparr>status := 400,
               payload := JsonBody (JObj [(''error'', JStr ''missing DEK (base64)''),
                                  (''received_keys'', received_keys body)])\<rparr>, p))"
  using assms by (simp add: wrap_handler_def send_json_def set_status_def split: option.splits)

lemma wrap_handler_payload:
  "payload (fst (wrap_handler kms kr p body res)) \<noteq> JsonBody (JObj [(''error'', JStr ''invalid base64/plaintext'')])"
  "payload (fst (wrap_handler kms kr p body res)) \<noteq> JsonBody (JObj [(''error'', JStr ''invalid base64/ciphertext'')])"
  by (simp_all add: wrap_handler_def send_json_def set_status_def
        split: option.splits sum.splits prod.splits)

lemma unwrap_handler_payload:
  "payload (fst (unwrap_handler kms kr p body res)) \<noteq> JsonBody (JObj [(''error'', JStr ''invalid base64/plaintext'')])"
  "payload (fst (unwrap_handler kms kr p body res)) \<noteq> JsonBody (JObj [(''error'', JStr ''invalid base64/ciphertext'')])"
  by (simp_all add: unwrap_handler_def send_json_def set_status_def
        split: option.splits sum.splits prod.splits)

lemma service_payload:
  "payload (fst (service kms kr p req)) \<noteq> JsonBody (JObj [(''error'', JStr ''invalid base64/plaintext'')])"
  "payload (fst (service kms kr p req)) \<noteq> JsonBody (JObj [(''error'', JStr ''invalid base64/ciphertext'')])"
  using cors_status_payload(2)[of req]
  by (simp_all add: service_def Let_def set_status_def framework_reply_def root_handler_def
        status_handler_def wellknown_handler_def send_json_def wrap_handler_payload
        unwrap_handler_payload split: sum.splits)

lemma swap_bytes_involution: "swap_bytes (swap_bytes b) = b"
  by (simp add: swap_bytes_def)

section \<open>Wrap without a candidate\<close>






section \<open>The round trip\<close>

text \<open>
  C4, as the code has it. Take bytes \<open>b\<close> that the provider encrypts to \<open>c\<close> and for
  which it decrypts \<open>c\<close> back to \<open>b\<close>, whatever state it is in by then. When the base64
  text of \<open>b\<close> and the base64 text of \<open>c\<close> both have at least 8 characters, a POST to
  /wrap with \<open>b\<close> in base64 under \<^verbatim>\<open>key\<close> is answered 200 with the single field
  \<^verbatim>\<open>wrapped_key\<close>, and a POST to /unwrap with that value under \<^verbatim>\<open>wrapped_key\<close> is
  answered 200 with \<open>b\<close> in base64 under \<^verbatim>\<open>key\<close>. Each request calls the provider once.
\<close>

theorem wrap_unwrap_round_trip:
  assumes "encrypt kms p kr b = (Inr c, p1)" and "decrypt kms q kr c = (Inr b, q1)"
    and "8 \<le> length (base64 b)" and "8 \<le> length (base64 c)"
    and "wrap_req = \<lparr>req_method = ''POST'', url_path = ''/wrap'', req_headers = hs,
                     raw = Json (JObj [(''key'', JStr (base64 b))])\<rparr>"
    and "unwrap_req = \<lparr>req_method = ''POST'', url_path = ''/unwrap'', req_headers = hs',
                       raw = Json (JObj [(''wrapped_key'', JStr (base64 c))])\<rparr>"
  shows "service kms kr p wrap_req =
           (\<lparr>status = 200, headers = headers (cors_headers wrap_req new_response),
             payload = JsonBody (JObj [(''wrapped_key'', JStr (base64 c))])\<rparr>, p1)
       \<and> service kms kr q unwrap_req =
           (\<lparr>status = 200, headers = headers (cors_headers unwrap_req new_response),
             payload = JsonBody (JObj [(''key'', JStr (base64 b))])\<rparr>, q1)"
proof
  have "service kms kr p wrap_req =
          wrap_handler kms kr p (JObj [(''key'', JStr (base64 b))]) (cors_headers wrap_req new_response)"
    by (rule service_post_wrap) (simp_all add: assms(5) route_self)
  then show "service kms kr p wrap_req =
           (\<lparr>status = 200, headers = headers (cors_headers wrap_req new_response),
             payload = JsonBody (JObj [(''wrapped_key'', JStr (base64 c))])\<rparr>, p1)"
    using cors_status_payload[of wrap_req] assms(1)
    by (simp add: wrap_handler_def pick_single_key[OF looksLikeB64_base64[OF assms(3)]]
          b64urlToBuf_base64 send_json_def del: b64urlToBuf.simps)
next
  have "service kms kr q unwrap_req =
          unwrap_handler kms kr q (JObj [(''wrapped_key'', JStr (base64 c))])
            (cors_headers unwrap_req new_response)"
    by (rule service_post_unwrap) (simp_all add: assms(6) route_self)
  then show "service kms kr q unwrap_req =
           (\<lparr>status = 200, headers = headers (cors_headers unwrap_req new_response),
             payload = JsonBody (JObj [(''key'', JStr (base64 b))])\<rparr>, q1)"
    using cors_status_payload[of unwrap_req] assms(2)
    by (simp add: unwrap_handler_def pick_single_key[OF looksLikeB64_base64[OF assms(4)]]
          b64urlToBuf_base64 send_json_def del: b64urlToBuf.simps)
qed

text \<open>
  The round trip of the bytes of \<^verbatim>\<open>Hello\<close> through the reversing provider.
\<close>

theorem wrap_unwrap_round_trip_witness:
  "service reversing_kms ''k'' 0 (post_request ''/wrap'' (Json (JObj [(''key'', JStr ''SGVsbG8='')]))) =
     (\<lparr>status = 200,
       headers = headers (cors_headers (post_request ''/wrap'' (Json (JObj [(''key'', JStr ''SGVsbG8='')]))) new_response),
       payload = JsonBody (JObj [(''wrapped_key'', JStr ''b2xsZUg='')])\<rparr>, 1)
   \<and> service reversing_kms ''k'' 1 (post_request ''/unwrap'' (Json (JObj [(''wrapped_key'', JStr ''b2xsZUg='')]))) =
     (\<lparr>status = 200,
       headers = headers (cors_headers (post_request ''/unwrap'' (Json (JObj [(''wrapped_key'', JStr ''b2xsZUg='')]))) new_response),
       payload = JsonBody (JObj [(''key'', JStr ''SGVsbG8='')])\<rparr>, 2)"
proof -
  have 1: "encrypt reversing_kms 0 ''k'' [72, 101, 108, 108, 111] = (Inr [111, 108, 108, 101, 72], 1)"
    by (simp add: reversing_kms_def)
  have 2: "decrypt reversing_kms 1 ''k'' [111, 108, 108, 101, 72] = (Inr [72, 101, 108, 108, 111], 2)"
    by (simp add: reversing_kms_def)
  have 3: "8 \<le> length (base64 [72, 101, 108, 108, 111])" by (simp add: base64_examples)
  have 4: "8 \<le> length (base64 [111, 108, 108, 101, 72])" by (simp add: base64_examples)
  show ?thesis
    using wrap_unwrap_round_trip[OF 1 2 3 4 refl refl, of Map.empty Map.empty]
    unfolding base64_examples post_request_def by simp
qed

text \<open>
  C4 as the specification states it fails when the ciphertext is shorter than four bytes.
  The exchanging provider inverts its own encryption (\<open>swap_bytes_involution\<close>) and
  \<^verbatim>\<open>AAAAAA==\<close>, the base64 text of four zero bytes, has 8 characters. Wrap answers with
  \<^verbatim>\<open>AA==\<close>, the base64 text of the single zero byte, which is too short for the
  heuristic: unwrap finds no candidate in the body and answers 400 without calling the
  provider.
\<close>

theorem short_ciphertext_not_unwrapped:
  "service swap_kms ''k'' 0 (post_request ''/wrap'' (Json (JObj [(''key'', JStr ''AAAAAA=='')]))) =
     (\<lparr>status = 200,
       headers = headers (cors_headers (post_request ''/wrap'' (Json (JObj [(''key'', JStr ''AAAAAA=='')]))) new_response),
       payload = JsonBody (JObj [(''wrapped_key'', JStr ''AA=='')])\<rparr>, 1)
   \<and> service swap_kms ''k'' 1 (post_request ''/unwrap'' (Json (JObj [(''wrapped_key'', JStr ''AA=='')]))) =
     (\<lparr>status = 400,
       headers = headers (cors_headers (post_request ''/unwrap'' (Json (JObj [(''wrapped_key'', JStr ''AA=='')]))) new_response),
       payload = JsonBody (JObj [(''error'', JStr ''missing wrapped_key/ciphertext (base64)''),
                                 (''received_keys'', JArr [JStr ''wrapped_key''])])\<rparr>, 1)"
proof -
  have a: "pickBase64 (JObj [(''key'', JStr ''AAAAAA=='')]) wrap_preferred True
           = Some \<lparr>key = ''key'', b64 = ''AAAAAA=='', path = ''key''\<rparr>"
    by code_simp
  have b: "b64urlToBuf (JStr ''AAAAAA=='') = Some [0, 0, 0, 0]"
    using b64urlToBuf_base64[of "[0, 0, 0, 0]"] unfolding base64_examples .
  have c: "pickBase64 (JObj [(''wrapped_key'', JStr ''AA=='')]) unwrap_preferred True = None"
    by code_simp
  have d: "swap_bytes [0, 0, 0, 0] = [0]" by (simp add: swap_bytes_def)
  show ?thesis
    using cors_status_payload
    by (simp add: service_def is_preflight_def post_request_def Let_def route_self
          route_unwrap_not_wrap[OF route_self(2)] wrap_handler_def unwrap_handler_def a b c d
          swap_kms_def base64_examples send_json_def set_status_def received_keys_def
          del: b64urlToBuf.simps base64.simps)
qed

section \<open>The key resource in responses\<close>

text \<open>
  C5, as the code has it. The key resource is sent to the client by GET /status, in the
  field \<^verbatim>\<open>key_resource\<close>. The response to any other request is built from the request
  and from what the provider returns: two key resources for which the provider behaves
  the same give the same response and leave the provider in the same state.
\<close>

theorem key_resource_only_through_provider:
  assumes "\<not> (req_method req = ''GET'' \<and> route_matches ''/status'' (url_path req))"
    and "encrypt kms p kr1 = encrypt kms p kr2" and "decrypt kms p kr1 = decrypt kms p kr2"
  shows "service kms kr1 p req = service kms kr2 p req"
  using assms
  by (auto simp add: service_def Let_def wrap_handler_def unwrap_handler_def
        split: sum.splits option.splits)

theorem key_resource_only_through_provider_witness:
  "service reversing_kms ''projects/p/locations/l/keyRings/r/cryptoKeys/one'' 0
     (post_request ''/wrap'' (Json (JObj [(''key'', JStr ''SGVsbG8='')])))
   = service reversing_kms ''projects/p/locations/l/keyRings/r/cryptoKeys/two'' 0
     (post_request ''/wrap'' (Json (JObj [(''key'', JStr ''SGVsbG8='')])))"
  using key_resource_only_through_provider[of "post_request ''/wrap'' (Json (JObj [(''key'', JStr ''SGVsbG8='')]))"
      reversing_kms 0 "''projects/p/locations/l/keyRings/r/cryptoKeys/one''"
      "''projects/p/locations/l/keyRings/r/cryptoKeys/two''"]
  by (simp add: post_request_def reversing_kms_def)

text \<open>
  C5 as the specification states it fails at GET /status, whose body holds the key
  resource.
\<close>

theorem status_discloses_key_resource:
  "service reversing_kms ''projects/p/locations/l/keyRings/r/cryptoKeys/k'' 0
     \<lparr>req_method = ''GET'', url_path = ''/status'', req_headers = Map.empty, raw = NoJson\<rparr>
   = (\<lparr>status = 200,
       headers = headers (cors_headers \<lparr>req_method = ''GET'', url_path = ''/status'', req_headers = Map.empty, raw = NoJson\<rparr> new_response),
       payload = JsonBody (JObj [(''server_type'', JStr ''KACLS''),
                      (''vendor_id'', JStr ''POC''),
                      (''version'', JStr ''2.3.0''),
                      (''operations_supported'', JArr [JStr ''wrap'', JStr ''unwrap'']),
                      (''key_resource'', JStr ''projects/p/locations/l/keyRings/r/cryptoKeys/k'')])\<rparr>, 0)"
  using cors_status_payload
  by (simp add: service_def is_preflight_def Let_def route_matches_def lower_char_def char_eq_nat
        status_handler_def send_json_def)

section \<open>A body that is not JSON\<close>

text \<open>
  C6, as the code has it. When the body of a POST to /wrap is not JSON text, the body
  parser refuses the request: the handler does not run, the provider is not called, and the
  client gets the framework's own error page with status 400 (not 500) and the CORS
  headers. A POST to /wrap that carries no JSON payload is handled with the empty object
  as its body, and gets the handler's 400 with the missing-field error and no received
  key.
\<close>

theorem malformed_body_rejected:
  "service kms kr p \<lparr>req_method = ''POST'', url_path = ''/wrap'', req_headers = hs, raw = Malformed\<rparr> =
     (\<lparr>status = 400,
       headers = headers (cors_headers \<lparr>req_method = ''POST'', url_path = ''/wrap'', req_headers = hs, raw = Malformed\<rparr> new_response),
       payload = FrameworkPage\<rparr>, p)
   \<and> service kms kr p \<lparr>req_method = ''POST'', url_path = ''/wrap'', req_headers = hs, raw = NoJson\<rparr> =
     (\<lparr>status = 400,
       headers = headers (cors_headers \<lparr>req_method = ''POST'', url_path = ''/wrap'', req_headers = hs, raw = NoJson\<rparr> new_response),
       payload = JsonBody (JObj [(''error'', JStr ''missing DEK (base64)''), (''received_keys'', JArr [])])\<rparr>, p)"
proof -
  have a: "pickBase64 (JObj []) wrap_preferred True = None" by code_simp
  have b: "route_matches ''/wrap'' ''/wrap''" by code_simp
  show ?thesis
    using cors_status_payload
    by (simp add: service_def is_preflight_def framework_reply_def Let_def b
          wrap_no_candidate[OF a] reason_of_def received_keys_def)
qed

text \<open>
  C6 as the specification states it fails: the answer to a body that is not JSON is the
  page of the framework, not the JSON error of the handler.
\<close>

theorem malformed_body_gets_framework_page:
  "service reversing_kms ''k'' 0 (post_request ''/wrap'' Malformed) =
     (\<lparr>status = 400,
       headers = headers (cors_headers (post_request ''/wrap'' Malformed) new_response),
       payload = FrameworkPage\<rparr>, 0)"
  by (simp add: service_def post_request_def is_preflight_def framework_reply_def Let_def)

section \<open>A provider that throws\<close>

text \<open>
  C7. Take a POST whose parsed body yields a candidate that decodes to a buffer. On /wrap,
  when the call to encrypt throws \<open>e\<close>, the answer is 500 with the error
  \<^verbatim>\<open>wrap_failed\<close> and, under \<^verbatim>\<open>detail\<close>, the string made from \<open>e\<close>; on /unwrap,
  when the call to decrypt throws, the same with \<^verbatim>\<open>unwrap_failed\<close>. The provider is left
  in the state that this one call put it in: there is no second call.
\<close>

theorem provider_failure:
  assumes "req_method req = ''POST''" and "bodyParser_json (raw req) = Inr body"
  shows "(route_matches ''/wrap'' (url_path req)
          \<and> pickBase64 body wrap_preferred True = Some got
          \<and> b64urlToBuf (JStr (b64 got)) = Some plaintext
          \<and> encrypt kms p kr plaintext = (Inl e, p')
          \<longrightarrow> service kms kr p req =
                (\<lparr>status = 500, headers = headers (cors_headers req new_response),
                  payload = JsonBody (JObj [(''error'', JStr ''wrap_failed''),
                                            (''detail'', JStr (error_detail e))])\<rparr>, p'))
       \<and> (route_matches ''/unwrap'' (url_path req)
          \<and> pickBase64 body unwrap_preferred True = Some got
          \<and> b64urlToBuf (JStr (b64 got)) = Some ciphertext
          \<and> decrypt kms p kr ciphertext = (Inl e, p')
          \<longrightarrow> service kms kr p req =
                (\<lparr>status = 500, headers = headers (cors_headers req new_response),
                  payload = JsonBody (JObj [(''error'', JStr ''unwrap_failed''),
                                            (''detail'', JStr (error_detail e))])\<rparr>, p'))"
proof (intro conjI impI)
  assume a: "route_matches ''/wrap'' (url_path req)
          \<and> pickBase64 body wrap_preferred True = Some got
          \<and> b64urlToBuf (JStr (b64 got)) = Some plaintext
          \<and> encrypt kms p kr plaintext = (Inl e, p')"
  then show "service kms kr p req =
                (\<lparr>status = 500, headers = headers (cors_headers req new_response),
                  payload = JsonBody (JObj [(''error'', JStr ''wrap_failed''),
                                            (''detail'', JStr (error_detail e))])\<rparr>, p')"
    using service_post_wrap[OF assms(1) _ assms(2), of kms kr p] cors_status_payload[of req]
    by (simp add: wrap_handler_def send_json_def set_status_def)
next
  assume a: "route_matches ''/unwrap'' (url_path req)
          \<and> pickBase64 body unwrap_preferred True = Some got
          \<and> b64urlToBuf (JStr (b64 got)) = Some ciphertext
          \<and> decrypt kms p kr ciphertext = (Inl e, p')"
  then show "service kms kr p req =
                (\<lparr>status = 500, headers = headers (cors_headers req new_response),
                  payload = JsonBody (JObj [(''error'', JStr ''unwrap_failed''),
                                            (''detail'', JStr (error_detail e))])\<rparr>, p')"
    using service_post_unwrap[OF assms(1) _ assms(2), of kms kr p] cors_status_payload[of req]
    by (simp add: unwrap_handler_def send_json_def set_status_def)
qed

text \<open>
  The theorem at the provider that always throws and counts its calls: one call each, and
  the name of the error as detail when it has no message.
\<close>

theorem provider_failure_witness:
  "service failing_kms ''k'' 0 (post_request ''/wrap'' (Json (JObj [(''key'', JStr ''SGVsbG8='')]))) =
     (\<lparr>status = 500,
       headers = headers (cors_headers
                   (post_request ''/wrap'' (Json (JObj [(''key'', JStr ''SGVsbG8='')]))) new_response),
       payload = JsonBody (JObj [(''error'', JStr ''wrap_failed''),
                                 (''detail'', JStr ''7 PERMISSION_DENIED'')])\<rparr>, 1)
   \<and> service failing_kms ''k'' 0
       (post_request ''/unwrap'' (Json (JObj [(''wrapped_key'', JStr ''SGVsbG8='')]))) =
     (\<lparr>status = 500,
       headers = headers (cors_headers
                   (post_request ''/unwrap'' (Json (JObj [(''wrapped_key'', JStr ''SGVsbG8='')])))
                   new_response),
       payload = JsonBody (JObj [(''error'', JStr ''unwrap_failed''),
                                 (''detail'', JStr ''Error'')])\<rparr>, 1)"
proof -
  let ?w = "post_request ''/wrap'' (Json (JObj [(''key'', JStr ''SGVsbG8='')]))"
  let ?u = "post_request ''/unwrap'' (Json (JObj [(''wrapped_key'', JStr ''SGVsbG8='')]))"
  have m: "req_method ?w = ''POST''" "req_method ?u = ''POST''"
    by (simp_all add: post_request_def)
  have b: "bodyParser_json (raw ?w) = Inr (JObj [(''key'', JStr ''SGVsbG8='')])"
    "bodyParser_json (raw ?u) = Inr (JObj [(''wrapped_key'', JStr ''SGVsbG8='')])"
    by (simp_all add: post_request_def)
  have r: "route_matches ''/wrap'' (url_path ?w)" "route_matches ''/unwrap'' (url_path ?u)"
    by (simp_all add: post_request_def route_self)
  have pw: "pickBase64 (JObj [(''key'', JStr ''SGVsbG8='')]) wrap_preferred True
            = Some \<lparr>key = ''key'', b64 = ''SGVsbG8='', path = ''key''\<rparr>"
    by code_simp
  have pu: "pickBase64 (JObj [(''wrapped_key'', JStr ''SGVsbG8='')]) unwrap_preferred True
            = Some \<lparr>key = ''wrapped_key'', b64 = ''SGVsbG8='', path = ''wrapped_key''\<rparr>"
    by code_simp
  have "b64urlToBuf (JStr ''SGVsbG8='') = Some [72, 101, 108, 108, 111]"
    using b64urlToBuf_base64[of "[72, 101, 108, 108, 111]"] unfolding base64_examples .
  then have dw: "b64urlToBuf (JStr (b64 \<lparr>key = ''key'', b64 = ''SGVsbG8='', path = ''key''\<rparr>))
                 = Some [72, 101, 108, 108, 111]"
    and du: "b64urlToBuf (JStr (b64 \<lparr>key = ''wrapped_key'', b64 = ''SGVsbG8='', path = ''wrapped_key''\<rparr>))
                 = Some [72, 101, 108, 108, 111]"
    by (simp_all del: b64urlToBuf.simps)
  have en: "encrypt failing_kms 0 ''k'' [72, 101, 108, 108, 111]
            = (Inl (JsError ''Error'' ''7 PERMISSION_DENIED''), 1)"
    and de: "decrypt failing_kms 0 ''k'' [72, 101, 108, 108, 111] = (Inl (JsError ''Error'' []), 1)"
    by (simp_all add: failing_kms_def)
  have dt: "error_detail (JsError ''Error'' ''7 PERMISSION_DENIED'') = ''7 PERMISSION_DENIED''"
    "error_detail (JsError ''Error'' []) = ''Error''"
    by (simp_all add: error_detail_def error_to_string_def)
  from provider_failure[OF m(1) b(1), THEN conjunct1, rule_format,
      OF conjI[OF r(1) conjI[OF pw conjI[OF dw en]]]]
    provider_failure[OF m(2) b(2), THEN conjunct2, rule_format,
      OF conjI[OF r(2) conjI[OF pu conjI[OF du de]]]]
  show ?thesis unfolding dt by (rule conjI)
qed

section \<open>Preflight requests\<close>

text \<open>
  C8, as the code has it. A request with method OPTIONS or HEAD, on any path, is answered
  by the middleware with status 204 and no body; no route handler runs and the provider is
  not called. The answer allows the origin named by the request's Origin header when that
  header is present and not empty, and the default origin otherwise; it carries
  \<^verbatim>\<open>Vary: Origin\<close> and a maximal age of 86400.
\<close>

theorem preflight_reply:
  assumes "req_method req = ''OPTIONS'' \<or> req_method req = ''HEAD''"
  shows "service kms kr p req =
           (\<lparr>status = 204, headers = headers (cors_headers req new_response), payload = Empty\<rparr>, p)
       \<and> map_of (headers (cors_headers req new_response)) ''Access-Control-Allow-Origin''
           = Some (case req_headers req ''origin'' of
                     None \<Rightarrow> default_origin
                   | Some v \<Rightarrow> if v = [] then default_origin else v)
       \<and> map_of (headers (cors_headers req new_response)) ''Vary'' = Some ''Origin''
       \<and> map_of (headers (cors_headers req new_response)) ''Access-Control-Max-Age'' = Some ''86400''"
proof -
  have "is_preflight req" using assms by (simp add: is_preflight_def)
  then have "service kms kr p req = (set_status 204 (cors_headers req new_response), p)"
    by (simp add: service_def Let_def)
  moreover have "status (cors_headers req new_response) = 200"
    "payload (cors_headers req new_response) = Empty"
    by (simp_all add: cors_headers_def setHeader_def new_response_def Let_def)
  ultimately show ?thesis
    by (simp add: set_status_def cors_header_values header_or_def)
qed

text \<open>
  The theorem at \<^verbatim>\<open>OPTIONS /wrap\<close> from \<^verbatim>\<open>https://example.com\<close>, with all the
  headers of the answer.
\<close>

theorem preflight_reply_witness:
  "service reversing_kms ''k'' 0
      \<lparr>req_method = ''OPTIONS'', url_path = ''/wrap'', req_headers = [''origin'' \<mapsto> ''https://example.com''], raw = NoJson\<rparr>
   = (\<lparr>status = 204,
       headers = [(''Access-Control-Allow-Origin'', ''https://example.com''),
                  (''Access-Control-Allow-Credentials'', ''true''),
                  (''Vary'', ''Origin''),
                  (''Access-Control-Allow-Methods'', ''GET,POST,OPTIONS,HEAD''),
                  (''Access-Control-Allow-Headers'', default_allow_headers),
                  (''Access-Control-Max-Age'', ''86400'')],
       payload = Empty\<rparr>, 0)"
  using preflight_reply[of "\<lparr>req_method = ''OPTIONS'', url_path = ''/wrap'', req_headers = [''origin'' \<mapsto> ''https://example.com''], raw = NoJson\<rparr>" reversing_kms "''k''" 0]
  by (simp add: cors_headers_def setHeader_def new_response_def header_or_def Let_def)

text \<open>
  C8 as the specification states it fails for an Origin header that is present and empty:
  the empty string is falsy, so the answer names the default origin, not the header's
  value.
\<close>

theorem empty_origin_not_echoed:
  "map_of (headers (fst (service reversing_kms ''k'' 0
      \<lparr>req_method = ''OPTIONS'', url_path = ''/wrap'', req_headers = [''origin'' \<mapsto> []], raw = NoJson\<rparr>)))
     ''Access-Control-Allow-Origin'' = Some ''https://client-side-encryption.google.com''"
  by (simp add: service_def is_preflight_def Let_def set_status_def cors_header_values header_or_def
        default_origin_def)

section \<open>The decoder on candidates\<close>

text \<open>
  C9. A string that satisfies the heuristic always decodes to a buffer: there is nothing to
  trim from it, its URL-safe characters are made standard, it is padded, and the decoder
  reads what it can. Every candidate the locator returns satisfies the heuristic and so
  decodes. Hence no response of the service, to any request and with any provider, is the
  error \<^verbatim>\<open>invalid base64/plaintext\<close> or the error \<^verbatim>\<open>invalid base64/ciphertext\<close>.
\<close>

theorem decoder_never_absent:
  "(looksLikeB64 (JStr s) \<longrightarrow>
      b64urlToBuf (JStr s) = Some (buffer_from_base64 (pad4 (map to_standard s))))
   \<and> (pickBase64 body ks r = Some got \<longrightarrow>
        looksLikeB64 (JStr (b64 got)) \<and> b64urlToBuf (JStr (b64 got)) \<noteq> None)
   \<and> payload (fst (service kms kr p req))
        \<noteq> JsonBody (JObj [(''error'', JStr ''invalid base64/plaintext'')])
   \<and> payload (fst (service kms kr p req))
        \<noteq> JsonBody (JObj [(''error'', JStr ''invalid base64/ciphertext'')])"
  by (simp add: trim_looksLikeB64 pickBase64_qualifies service_payload del: looksLikeB64.simps)

text \<open>
  The theorem at the unpadded text of \<^verbatim>\<open>Hello world\<close>, located under \<^verbatim>\<open>dek\<close>.
\<close>

theorem decoder_never_absent_witness:
  "looksLikeB64 (JStr ''SGVsbG8gd29ybGQ'')
   \<and> b64urlToBuf (JStr ''SGVsbG8gd29ybGQ'') = Some [72, 101, 108, 108, 111, 32, 119, 111, 114, 108, 100]
   \<and> pickBase64 (JObj [(''dek'', JStr ''SGVsbG8gd29ybGQ'')]) wrap_preferred True
       = Some \<lparr>key = ''dek'', b64 = ''SGVsbG8gd29ybGQ'', path = ''dek''\<rparr>"
proof -
  have 1: "looksLikeB64 (JStr ''SGVsbG8gd29ybGQ'')"
    by (simp add: b64_regex_def is_b64_char_def)
  have 2: "pickBase64 (JObj [(''dek'', JStr ''SGVsbG8gd29ybGQ'')]) wrap_preferred True
       = Some \<lparr>key = ''dek'', b64 = ''SGVsbG8gd29ybGQ'', path = ''dek''\<rparr>"
    by code_simp
  have 3: "buffer_from_base64 (pad4 (map to_standard ''SGVsbG8gd29ybGQ''))
           = [72, 101, 108, 108, 111, 32, 119, 111, 114, 108, 100]"
    by (simp add: pad4.simps to_standard_def buffer_from_base64_def unbase64_def
          List.map_filter_simps Let_def)
  have 4: "b64urlToBuf (JStr ''SGVsbG8gd29ybGQ'')
           = Some (buffer_from_base64 (pad4 (map to_standard ''SGVsbG8gd29ybGQ'')))"
    using decoder_never_absent[THEN conjunct1, rule_format, OF 1] .
  from 1 4[unfolded 3] 2 show ?thesis by (intro conjI)
qed

section \<open>A body that is not an object or an array\<close>

text \<open>
  C10, as the code has it. A value that is not an object or an array (undefined, null, a
  boolean, a number or a string) is never located, with any preferred-name list and either
  setting of the recursion flag. A POST to /wrap whose JSON body is such a value, a string
  that satisfies the heuristic included, is not wrapped, and it does not get the
  missing-candidate response either: the strict body parser refuses it before the handler,
  the client gets the framework's page with status 400, and the provider is not called.
  The handler itself, were it called with a string as body, would answer 400 with the
  missing-candidate error and the indices of the string as received keys.
\<close>

theorem pickBase64_refuses_primitives:
  "pickBase64 JUndefined ks r = None \<and> pickBase64 JNull ks r = None
   \<and> pickBase64 (JBool b) ks r = None \<and> pickBase64 (JNum n) ks r = None
   \<and> pickBase64 (JStr s) ks r = None
   \<and> service kms kr p \<lparr>req_method = ''POST'', url_path = ''/wrap'', req_headers = hs, raw = Json (JStr s)\<rparr> =
       (\<lparr>status = 400,
         headers = headers (cors_headers \<lparr>req_method = ''POST'', url_path = ''/wrap'', req_headers = hs, raw = Json (JStr s)\<rparr> new_response),
         payload = FrameworkPage\<rparr>, p)
   \<and> service kms kr p \<lparr>req_method = ''POST'', url_path = ''/wrap'', req_headers = hs, raw = Json (JNum n)\<rparr> =
       (\<lparr>status = 400,
         headers = headers (cors_headers \<lparr>req_method = ''POST'', url_path = ''/wrap'', req_headers = hs, raw = Json (JNum n)\<rparr> new_response),
         payload = FrameworkPage\<rparr>, p)
   \<and> service kms kr p \<lparr>req_method = ''POST'', url_path = ''/wrap'', req_headers = hs, raw = Json (JBool b)\<rparr> =
       (\<lparr>status = 400,
         headers = headers (cors_headers \<lparr>req_method = ''POST'', url_path = ''/wrap'', req_headers = hs, raw = Json (JBool b)\<rparr> new_response),
         payload = FrameworkPage\<rparr>, p)
   \<and> service kms kr p \<lparr>req_method = ''POST'', url_path = ''/wrap'', req_headers = hs, raw = Json JNull\<rparr> =
       (\<lparr>status = 400,
         headers = headers (cors_headers \<lparr>req_method = ''POST'', url_path = ''/wrap'', req_headers = hs, raw = Json JNull\<rparr> new_response),
         payload = FrameworkPage\<rparr>, p)
   \<and> wrap_handler kms kr p (JStr s) res =
       (res\<lparr>status := 400,
            payload := JsonBody (JObj [(''error'', JStr ''missing DEK (base64)''),
                              (''received_keys'',
                                 JArr (map (\<lambda>i. JStr (show_nat i)) [0 ..< length s]))])\<rparr>, p)"
  by (simp add: pickBase64_primitive service_def is_preflight_def framework_reply_def Let_def
        wrap_handler_def reason_of_def received_keys_def send_json_def set_status_def comp_def)

text \<open>
  C10 as the specification states it fails at its last part: a POST to /wrap whose body is
  a single qualifying string gets the page of the framework, not the missing-candidate
  response of the handler.
\<close>

theorem bare_string_body_refused_by_parser:
  "service reversing_kms ''k'' 0 (post_request ''/wrap'' (Json (JStr ''QUJDREVGR0g=''))) =
     (\<lparr>status = 400,
       headers = headers (cors_headers (post_request ''/wrap'' (Json (JStr ''QUJDREVGR0g=''))) new_response),
       payload = FrameworkPage\<rparr>, 0)"
  by (simp add: service_def post_request_def is_preflight_def framework_reply_def Let_def)

end
